theory Spec2Isabelle
  imports Main "HOL-Library.Sublist" "HOL-Library.AList"
begin

section \<open>JavaScript string primitives used by the rule\<close>

text \<open>
  Strings are lists of characters. \<open>str_includes s t\<close> is \<open>s.includes(t)\<close>: does \<open>t\<close>
  occur in \<open>s\<close> as a contiguous substring.
\<close>

fun str_includes :: "'a list \<Rightarrow> 'a list \<Rightarrow> bool" where
  "str_includes [] t = (t = [])"
| "str_includes (c # cs) t = (prefix t (c # cs) \<or> str_includes cs t)"

text \<open>
  \<open>replace_first s pat rep\<close> is \<open>s.replace(pat, rep)\<close> for a string pattern \<open>pat\<close>
  and a replacement without dollar patterns: the occurrence of \<open>pat\<close> at the smallest
  index is replaced, wherever it is; a string without occurrence is returned as it is.
\<close>

fun replace_first :: "'a list \<Rightarrow> 'a list \<Rightarrow> 'a list \<Rightarrow> 'a list" where
  "replace_first [] pat rep = (if pat = [] then rep else [])"
| "replace_first (c # cs) pat rep =
     (if prefix pat (c # cs) then rep @ drop (length pat) (c # cs)
      else c # replace_first cs pat rep)"

section \<open>utils.js: names\<close>

text \<open>
  \<open>rootPackageName\<close> is read once from the manifest of the working directory; every
  function below takes it as the parameter \<open>root\<close>. The token removed by
  \<open>getShortPackageName\<close> is the template string \<open>@${rootPackageName}/\<close>.
\<close>

definition scope_token :: "string \<Rightarrow> string" where
  "scope_token root = ''@'' @ root @ ''/''"

definition getShortPackageName :: "string \<Rightarrow> string \<Rightarrow> string" where
  "getShortPackageName root currentPackageName =
     replace_first currentPackageName (scope_token root) ''''"

definition isRelativeImport :: "string \<Rightarrow> bool" where
  "isRelativeImport importPath = str_includes importPath ''..''"

section \<open>The file system and Node's path module\<close>

text \<open>
  An absolute POSIX path is the list of its segments below \<open>/\<close>; the root directory is
  the empty list, \<open>path.join(dir, file)\<close> appends a segment and \<open>path.dirname\<close> drops the
  last one (the root is its own parent). File names handed to the rule and the working
  directory are absolute and normalised. The file system is a tree. Of a file only the
  outcome of loading it as JSON matters: \<open>Unloadable\<close> when reading or parsing throws,
  otherwise the value of its \<open>name\<close> field (\<open>None\<close> for \<open>undefined\<close>). A directory
  lists its entries in the order \<open>readdirSync\<close> returns them.
\<close>

type_synonym path = "string list"

datatype manifest = Unloadable | Manifest "string option"

datatype fsnode = File manifest | Dir "(string \<times> fsnode) list"

fun fs_lookup :: "fsnode \<Rightarrow> path \<Rightarrow> fsnode option" where
  "fs_lookup n [] = Some n"
| "fs_lookup (File c) (x # p) = None"
| "fs_lookup (Dir es) (x # p) =
     (case map_of es x of None \<Rightarrow> None | Some n \<Rightarrow> fs_lookup n p)"

definition existsSync :: "fsnode \<Rightarrow> path \<Rightarrow> bool" where
  "existsSync fs p = (fs_lookup fs p \<noteq> None)"

definition dirname :: "path \<Rightarrow> path" where
  "dirname p = butlast p"

text \<open>
  \<open>split_slash s\<close> is \<open>s.split("/")\<close>; \<open>join_slash\<close> puts the separator back.
\<close>

fun split_slash :: "string \<Rightarrow> string list" where
  "split_slash [] = [[]]"
| "split_slash (c # cs) =
     (if c = CHR ''/'' then [] # split_slash cs
      else (case split_slash cs of [] \<Rightarrow> [[c]] | s # ss \<Rightarrow> (c # s) # ss))"

fun join_slash :: "string list \<Rightarrow> string" where
  "join_slash [] = []"
| "join_slash [s] = s"
| "join_slash (s # t # ss) = s @ ''/'' @ join_slash (t # ss)"

text \<open>
  \<open>path.normalize\<close> of Node (POSIX flavour) is library code outside the repository; it
  is modelled after Node's algorithm. Empty and \<open>.\<close> segments are dropped, a \<open>..\<close>
  removes the segment before it unless there is none or it is itself \<open>..\<close>, in which
  case it is kept for a relative path and dropped for an absolute one; a trailing
  separator is preserved.
\<close>

definition normalize_step :: "bool \<Rightarrow> string list \<Rightarrow> string \<Rightarrow> string list" where
  "normalize_step allowAboveRoot res seg =
     (if seg = [] \<or> seg = ''.'' then res
      else if seg = ''..'' then
        (if res \<noteq> [] \<and> last res \<noteq> ''..'' then butlast res
         else if allowAboveRoot then res @ [''..''] else res)
      else res @ [seg])"

definition normalizeString :: "string \<Rightarrow> bool \<Rightarrow> string list" where
  "normalizeString p allowAboveRoot =
     foldl (normalize_step allowAboveRoot) [] (split_slash p)"

definition normalize :: "string \<Rightarrow> string" where
  "normalize p =
     (if p = [] then ''.''
      else
        let isAbsolute = (hd p = CHR ''/'');
            trailingSeparator = (last p = CHR ''/'');
            res = join_slash (normalizeString p (\<not> isAbsolute))
        in if res = [] then (if isAbsolute then ''/'' else if trailingSeparator then ''./'' else ''.'')
           else (if isAbsolute then ''/'' else []) @ res @ (if trailingSeparator then ''/'' else []))"

section \<open>utils.js: the package registry\<close>

datatype error = TypeError | ManifestError | FsError

text \<open>
  \<open>packageMap\<close> is a JavaScript \<open>Map\<close> from directory to declared name; \<open>set\<close> on a
  present key overwrites in place. A manifest without \<open>name\<close> registers its directory
  with the value \<open>undefined\<close>.
\<close>

type_synonym registry = "(path \<times> string option) list"

text \<open>
  \<open>traverse dir es reg\<close> is the loop of \<open>traverse(dir)\<close> over the entries \<open>es\<close> that
  \<open>readdirSync(dir)\<close> returned, started with the map \<open>reg\<close>. A directory entry is
  descended into unless it is called \<open>node_modules\<close>; a file called \<open>package.json\<close> is
  loaded with \<open>require\<close>, which throws when the file cannot be read or parsed: the
  source has no handler around it, so the exception leaves the scan.
\<close>

function traverse :: "path \<Rightarrow> (string \<times> fsnode) list \<Rightarrow> registry \<Rightarrow> error + registry" where
  "traverse dir [] reg = Inr reg"
| "traverse dir ((file, Dir es) # rest) reg =
     (if file \<noteq> ''node_modules'' then
        (case traverse (dir @ [file]) es reg of
           Inl e \<Rightarrow> Inl e
         | Inr reg' \<Rightarrow> traverse dir rest reg')
      else traverse dir rest reg)"
| "traverse dir ((file, File c) # rest) reg =
     (if file = ''package.json'' then
        (case c of
           Unloadable \<Rightarrow> Inl ManifestError
         | Manifest packageName \<Rightarrow> traverse dir rest (AList.update dir packageName reg))
      else traverse dir rest reg)"
  by pat_completeness auto
termination
  by (relation "measure (\<lambda>(dir, es, reg). size_list (size_prod (\<lambda>_. 0) size) es)") auto

definition findInternalPackageNames :: "fsnode \<Rightarrow> path \<Rightarrow> error + registry" where
  "findInternalPackageNames fs rootDirectory =
     (case fs_lookup fs rootDirectory of
        Some (Dir es) \<Rightarrow> traverse rootDirectory es []
      | _ \<Rightarrow> Inl FsError)"

text \<open>
  \<open>packageMap.get(packagePath)\<close>: \<open>undefined\<close> for \<open>null\<close>, for a directory that is no
  key, and for a key registered without a name.
\<close>

definition packageMap_get :: "registry \<Rightarrow> path option \<Rightarrow> string option" where
  "packageMap_get packageMap packagePath =
     (case packagePath of
        None \<Rightarrow> None
      | Some d \<Rightarrow> (case map_of packageMap d of None \<Rightarrow> None | Some v \<Rightarrow> v))"

text \<open>
  The loop of \<open>findPackageJson\<close>: walk upward from \<open>currentDir\<close> until a directory has
  an entry \<open>package.json\<close> on disk or the root \<open>/\<close> is reached; the root itself is
  never tested.
\<close>

function findPackageJson_loop :: "fsnode \<Rightarrow> path \<Rightarrow> path option" where
  "findPackageJson_loop fs currentDir =
     (if currentDir \<noteq> [] then
        (if existsSync fs (currentDir @ [''package.json'']) then Some currentDir
         else findPackageJson_loop fs (dirname currentDir))
      else None)"
  by pat_completeness auto
termination
  by (relation "measure (\<lambda>(fs, currentDir). length currentDir)") (auto simp: dirname_def)

definition findPackageJson :: "fsnode \<Rightarrow> path \<Rightarrow> path option" where
  "findPackageJson fs filePath = findPackageJson_loop fs (dirname filePath)"

text \<open>
  \<open>getPackageNameFromPath\<close>: the first segment of the normalised import path that is
  neither \<open>..\<close>, \<open>.\<close> nor empty names a directory directly under the working directory;
  its manifest's name is returned, \<open>null\<close> when the name is missing or empty or when
  reading or parsing throws (the \<open>catch\<close>). The second parameter of the source,
  \<open>currentFilePath\<close>, is not used by its body.
\<close>

definition getPackageNameFromPath :: "fsnode \<Rightarrow> path \<Rightarrow> string \<Rightarrow> string option" where
  "getPackageNameFromPath fs rootDirectory importPath =
     (case find (\<lambda>segment. segment \<noteq> ''..'' \<and> segment \<noteq> ''.'' \<and> segment \<noteq> [])
                (split_slash (normalize importPath)) of
        None \<Rightarrow> None
      | Some packageNameSegment \<Rightarrow>
          (case fs_lookup fs (rootDirectory @ [packageNameSegment, ''package.json'']) of
             Some (File (Manifest (Some n))) \<Rightarrow> (if n = [] then None else Some n)
           | _ \<Rightarrow> None))"

section \<open>utils.js: policy lookup and reporting\<close>

text \<open>
  An element of the rule's options. The schema requires \<open>target\<close> only, so \<open>allow\<close>
  and \<open>restrict\<close> may be \<open>undefined\<close>.
\<close>

record policy =
  target :: string
  allow :: "string list option"
  restrict :: "string list option"

text \<open>
  \<open>findConfigByPackageName\<close> starts with \<open>getShortPackageName(currentPackageName)\<close>,
  which calls \<open>.replace\<close> on its argument: on \<open>undefined\<close> that is a TypeError.
\<close>

definition findConfigByPackageName :: "string \<Rightarrow> policy list \<Rightarrow> string option \<Rightarrow> error + policy" where
  "findConfigByPackageName root options currentPackageName =
     (case currentPackageName of
        None \<Rightarrow> Inl TypeError
      | Some name \<Rightarrow>
          (let shortPackageName = getShortPackageName root name in
           case find (\<lambda>e. shortPackageName = target e) options of
             Some packageConfig \<Rightarrow> Inr packageConfig
           | None \<Rightarrow> Inr \<lparr>target = shortPackageName, allow = Some [''*''], restrict = Some []\<rparr>))"

text \<open>
  The marker around every message: the eight bytes the source file has on both sides of
  the template.
\<close>

definition marker :: string where
  "marker = map char_of [0xC3, 0xB0, 0xC5, 0xB8, 0xC5, 0xA1, 0xC2, 0xA8 :: nat]"

definition dq :: string where
  "dq = [CHR 0x22]"

text \<open>A report is the message handed to \<open>context.report\<close>.\<close>

definition report_text :: "string \<Rightarrow> string" where
  "report_text message = marker @ '' '' @ message @ '' '' @ marker"

definition reportLayerBreakingImport :: "string \<Rightarrow> string list" where
  "reportLayerBreakingImport message = [report_text message]"

definition msg_relative :: string where
  "msg_relative = ''Layer-breaking relative import detected''"

definition msg_not_allowed :: "string \<Rightarrow> string \<Rightarrow> string" where
  "msg_not_allowed shortImportPackageName shortCurrentPackageName =
     ''Layer-breaking: '' @ dq @ shortImportPackageName @ dq @
     '' is not in allow-list of '' @ dq @ shortCurrentPackageName @ dq"

definition msg_restricted :: "string \<Rightarrow> string \<Rightarrow> string" where
  "msg_restricted shortCurrentPackageName packageName =
     ''Layer-breaking: '' @ dq @ shortCurrentPackageName @ dq @
     '' is restricted from importing '' @ dq @ packageName @ dq"

section \<open>The rule \<open>code-layering\<close>\<close>

definition handleRelativeImport :: "fsnode \<Rightarrow> path \<Rightarrow> string \<Rightarrow> string \<Rightarrow> string list" where
  "handleRelativeImport fs rootDirectory currentPackageName importPath =
     (let importedPackageName = getPackageNameFromPath fs rootDirectory importPath in
      if importedPackageName \<noteq> Some currentPackageName
      then reportLayerBreakingImport msg_relative
      else [])"

text \<open>The \<open>for ... of\<close> loop over \<open>restrict\<close>: the first equal entry reports and returns.\<close>

fun restrict_loop :: "string \<Rightarrow> string \<Rightarrow> string list \<Rightarrow> string list" where
  "restrict_loop shortCurrentPackageName shortImportPackageName [] = []"
| "restrict_loop shortCurrentPackageName shortImportPackageName (packageName # rest) =
     (if packageName = shortImportPackageName
      then reportLayerBreakingImport (msg_restricted shortCurrentPackageName packageName)
      else restrict_loop shortCurrentPackageName shortImportPackageName rest)"

text \<open>
  \<open>allow.some(...)\<close> on \<open>undefined\<close> and \<open>for ... of\<close> over \<open>undefined\<close> throw a
  TypeError; the second is reached only when the allow check has passed.
\<close>

definition handleAbsoluteImport ::
  "string \<Rightarrow> string \<Rightarrow> string list option \<Rightarrow> string list option \<Rightarrow> string \<Rightarrow> error + string list" where
  "handleAbsoluteImport root currentPackageName allow_opt restrict_opt importPath =
     (let shortImportPackageName = getShortPackageName root importPath;
          shortCurrentPackageName = getShortPackageName root currentPackageName
      in case allow_opt of
           None \<Rightarrow> Inl TypeError
         | Some allow_list \<Rightarrow>
             (let allowed = list_ex (\<lambda>packageName. packageName = ''*'' \<or>
                                       packageName = shortImportPackageName) allow_list
              in if \<not> allowed then
                   Inr (reportLayerBreakingImport
                          (msg_not_allowed shortImportPackageName shortCurrentPackageName))
                 else
                   (case restrict_opt of
                      None \<Rightarrow> Inl TypeError
                    | Some restrict_list \<Rightarrow>
                        Inr (restrict_loop shortCurrentPackageName shortImportPackageName
                               restrict_list))))"

text \<open>
  What the visitor returned by \<open>create\<close> closes over. \<open>create\<close> looks the owning
  package up and resolves its policy; an exception of \<open>findConfigByPackageName\<close>
  leaves \<open>create\<close>. Past that call the package name is a string (the inner \<open>None\<close>
  case only restates the exception already raised).
\<close>

record visitor =
  v_currentPackageName :: string
  v_allow :: "string list option"
  v_restrict :: "string list option"

definition create ::
  "string \<Rightarrow> fsnode \<Rightarrow> registry \<Rightarrow> policy list \<Rightarrow> path \<Rightarrow> error + visitor" where
  "create root fs packageMap options filename =
     (let packagePath = findPackageJson fs filename;
          currentPackageName = packageMap_get packageMap packagePath
      in case findConfigByPackageName root options currentPackageName of
           Inl e \<Rightarrow> Inl e
         | Inr cfg \<Rightarrow>
             (case currentPackageName of
                None \<Rightarrow> Inl TypeError
              | Some n \<Rightarrow> Inr \<lparr>v_currentPackageName = n, v_allow = allow cfg,
                                v_restrict = restrict cfg\<rparr>))"

definition ImportDeclaration ::
  "string \<Rightarrow> fsnode \<Rightarrow> path \<Rightarrow> visitor \<Rightarrow> string \<Rightarrow> error + string list" where
  "ImportDeclaration root fs rootDirectory v importPath =
     (if \<not> str_includes importPath root then Inr []
      else if isRelativeImport importPath then
        Inr (handleRelativeImport fs rootDirectory (v_currentPackageName v) importPath)
      else handleAbsoluteImport root (v_currentPackageName v) (v_allow v) (v_restrict v)
             importPath)"

text \<open>
  Linting one file: \<open>create\<close> runs once, then the visitor is called on every import of
  the file in order; an exception ends the run.
\<close>

fun visit_all :: "string \<Rightarrow> fsnode \<Rightarrow> path \<Rightarrow> visitor \<Rightarrow> string list \<Rightarrow> error + string list" where
  "visit_all root fs rootDirectory v [] = Inr []"
| "visit_all root fs rootDirectory v (importPath # rest) =
     (case ImportDeclaration root fs rootDirectory v importPath of
        Inl e \<Rightarrow> Inl e
      | Inr reports \<Rightarrow>
          (case visit_all root fs rootDirectory v rest of
             Inl e \<Rightarrow> Inl e
           | Inr later \<Rightarrow> Inr (reports @ later)))"

definition lint_file ::
  "string \<Rightarrow> fsnode \<Rightarrow> path \<Rightarrow> registry \<Rightarrow> policy list \<Rightarrow> path \<Rightarrow> string list \<Rightarrow> error + string list" where
  "lint_file root fs rootDirectory packageMap options filename importPaths =
     (case create root fs packageMap options filename of
        Inl e \<Rightarrow> Inl e
      | Inr v \<Rightarrow> visit_all root fs rootDirectory v importPaths)"

section \<open>A project tree to run the model on\<close>

text \<open>
  The project \<open>/proj\<close> (root name \<open>root\<close>) with the packages \<open>core\<close> and \<open>ui\<close>, a
  vendored dependency under \<open>node_modules\<close>, and a file \<open>/tmp/tool.js\<close> outside of it.
\<close>

definition example_fs :: fsnode where
  "example_fs = Dir [
     (''proj'', Dir [
        (''package.json'', File (Manifest (Some ''root''))),
        (''core'', Dir [(''package.json'', File (Manifest (Some ''@root/core''))),
                        (''src'', Dir [(''a.js'', File Unloadable)])]),
        (''ui'', Dir [(''package.json'', File (Manifest (Some ''@root/ui'')))]),
        (''node_modules'', Dir [
           (''dep'', Dir [(''package.json'', File (Manifest (Some ''dep''))),
                          (''index.js'', File Unloadable)])])]),
     (''tmp'', Dir [(''tool.js'', File Unloadable)])]"

definition example_registry :: registry where
  "example_registry =
     [([''proj''], Some ''root''),
      ([''proj'', ''core''], Some ''@root/core''),
      ([''proj'', ''ui''], Some ''@root/ui'')]"

text \<open>The same project with a manifest in \<open>ui\<close> that does not parse.\<close>

definition broken_fs :: fsnode where
  "broken_fs = Dir [
     (''proj'', Dir [
        (''package.json'', File (Manifest (Some ''root''))),
        (''core'', Dir [(''package.json'', File (Manifest (Some ''@root/core'')))]),
        (''ui'', Dir [(''package.json'', File Unloadable)])])]"

definition core_visitor :: "string list option \<Rightarrow> string list option \<Rightarrow> visitor" where
  "core_visitor a r = \<lparr>v_currentPackageName = ''@root/core'', v_allow = a, v_restrict = r\<rparr>"

section \<open>Substring facts\<close>


lemma replace_first_absent:
  "\<not> str_includes s pat \<Longrightarrow> replace_first s pat rep = s"
  by (induction s) auto

lemma replace_first_prefix:
  "prefix pat s \<Longrightarrow> replace_first s pat rep = rep @ drop (length pat) s"
  by (cases s) auto

lemma replace_first_present:
  "str_includes s pat \<Longrightarrow>
   \<exists>p q. s = p @ pat @ q \<and> replace_first s pat rep = p @ rep @ q \<and>
         (\<forall>p' q'. s = p' @ pat @ q' \<longrightarrow> length p \<le> length p')"
proof (induction s)
  case Nil
  then show ?case by auto
next
  case (Cons c cs)
  show ?case
  proof (cases "prefix pat (c # cs)")
    case True
    then obtain q where q: "c # cs = pat @ q" by (auto simp: prefix_def)
    then have "c # cs = [] @ pat @ q \<and> replace_first (c # cs) pat rep = [] @ rep @ q"
      using True by (simp del: replace_first.simps add: replace_first_prefix)
    then show ?thesis by (metis le0 list.size(3))
  next
    case False
    with Cons.prems have "str_includes cs pat" by simp
    with Cons.IH obtain p q where pq: "cs = p @ pat @ q"
      "replace_first cs pat rep = p @ rep @ q"
      "\<forall>p' q'. cs = p' @ pat @ q' \<longrightarrow> length p \<le> length p'" by blast
    have min: "length (c # p) \<le> length p'" if h: "c # cs = p' @ pat @ q'" for p' q'
    proof (cases p')
      case Nil
      with h have "prefix pat (c # cs)" by (simp add: prefix_def)
      with False show ?thesis by simp
    next
      case (Cons a r)
      with h have "cs = r @ pat @ q'" by simp
      with pq(3) have "length p \<le> length r" by blast
      with Cons show ?thesis by simp
    qed
    have "c # cs = (c # p) @ pat @ q" using pq(1) by simp
    moreover have "replace_first (c # cs) pat rep = (c # p) @ rep @ q"
      using False pq(2) by simp
    ultimately show ?thesis using min by blast
  qed
qed

lemma replace_first_shorter:
  "str_includes s pat \<Longrightarrow> pat \<noteq> [] \<Longrightarrow> length (replace_first s pat []) < length s"
proof -
  assume a: "str_includes s pat" and ne: "pat \<noteq> []"
  from replace_first_present [OF a, of "[]"] obtain p q where
    "s = p @ pat @ q" "replace_first s pat [] = p @ [] @ q" by blast
  then show ?thesis using ne by simp
qed

lemma replace_first_fixed_iff:
  "pat \<noteq> [] \<Longrightarrow> replace_first s pat [] = s \<longleftrightarrow> \<not> str_includes s pat"
  using replace_first_shorter [of s pat] replace_first_absent [of s pat "[]"]
  by (metis less_irrefl)

lemma scope_token_nonempty: "scope_token root \<noteq> []"
  by (simp add: scope_token_def)

section \<open>Short names\<close>

text \<open>
  C8 (as amended). \<open>getShortPackageName\<close> removes the first occurrence of the token
  \<open>@<root>/\<close> wherever it is in the name: a name that starts with the token loses exactly
  that prefix, a name that does not contain the token is returned unchanged, and a name
  that contains it at a later position only has that occurrence cut out.
\<close>

theorem getShortPackageName_first_occurrence:
  "(prefix (scope_token root) name \<longrightarrow>
      getShortPackageName root name = drop (length (scope_token root)) name) \<and>
   (\<not> str_includes name (scope_token root) \<longrightarrow> getShortPackageName root name = name) \<and>
   (str_includes name (scope_token root) \<longrightarrow>
      (\<exists>p q. name = p @ scope_token root @ q \<and> getShortPackageName root name = p @ q \<and>
             (\<forall>p' q'. name = p' @ scope_token root @ q' \<longrightarrow> length p \<le> length p')))"
proof (intro conjI impI)
  assume "prefix (scope_token root) name"
  then show "getShortPackageName root name = drop (length (scope_token root)) name"
    unfolding getShortPackageName_def by (simp add: replace_first_prefix)
next
  assume "\<not> str_includes name (scope_token root)"
  then show "getShortPackageName root name = name"
    unfolding getShortPackageName_def by (rule replace_first_absent)
next
  assume "str_includes name (scope_token root)"
  from replace_first_present [OF this, of "[]"]
  show "\<exists>p q. name = p @ scope_token root @ q \<and> getShortPackageName root name = p @ q \<and>
             (\<forall>p' q'. name = p' @ scope_token root @ q' \<longrightarrow> length p \<le> length p')"
    unfolding getShortPackageName_def by simp
qed

theorem getShortPackageName_first_occurrence_witness:
  "getShortPackageName ''root'' ''@root/ui'' = ''ui'' \<and>
   getShortPackageName ''root'' ''lodash'' = ''lodash'' \<and>
   (\<exists>p q. ''x@root/y'' = p @ scope_token ''root'' @ q \<and>
          getShortPackageName ''root'' ''x@root/y'' = p @ q)"
proof -
  have a: "prefix (scope_token ''root'') ''@root/ui''" by (simp add: scope_token_def)
  have b: "\<not> str_includes ''lodash'' (scope_token ''root'')" by (simp add: scope_token_def)
  have c: "str_includes ''x@root/y'' (scope_token ''root'')" by (simp add: scope_token_def)
  from getShortPackageName_first_occurrence [of "''root''" "''@root/ui''"] a
  have "getShortPackageName ''root'' ''@root/ui'' =
          drop (length (scope_token ''root'')) ''@root/ui''" by blast
  then have 1: "getShortPackageName ''root'' ''@root/ui'' = ''ui''"
    by (simp add: scope_token_def)
  from getShortPackageName_first_occurrence [of "''root''" "''lodash''"] b
  have 2: "getShortPackageName ''root'' ''lodash'' = ''lodash''" by blast
  from getShortPackageName_first_occurrence [of "''root''" "''x@root/y''"] c
  have 3: "\<exists>p q. ''x@root/y'' = p @ scope_token ''root'' @ q \<and>
                 getShortPackageName ''root'' ''x@root/y'' = p @ q" by blast
  from 1 2 3 show ?thesis by blast
qed

text \<open>
  C8 as stated fails: \<open>x@root/y\<close> does not start with \<open>@root/\<close> and yet is changed
  (to \<open>xy\<close>).
\<close>

theorem getShortPackageName_nonleading_counterexample:
  "\<not> prefix (scope_token ''root'') ''x@root/y'' \<and>
   getShortPackageName ''root'' ''x@root/y'' \<noteq> ''x@root/y''"
  by (simp add: getShortPackageName_def scope_token_def)

text \<open>
  C5 (as amended). Applying \<open>getShortPackageName\<close> twice gives the same as applying it
  once exactly when the first result no longer contains the token \<open>@<root>/\<close>; this
  is so for every name without the token and for every name made of the token followed
  by a rest without the token.
\<close>

theorem getShortPackageName_idempotent_iff:
  "(getShortPackageName root (getShortPackageName root x) = getShortPackageName root x
      \<longleftrightarrow> \<not> str_includes (getShortPackageName root x) (scope_token root)) \<and>
   (\<not> str_includes x (scope_token root) \<longrightarrow>
      getShortPackageName root (getShortPackageName root x) = getShortPackageName root x) \<and>
   (\<not> str_includes y (scope_token root) \<longrightarrow>
      getShortPackageName root (getShortPackageName root (scope_token root @ y)) =
      getShortPackageName root (scope_token root @ y))"
proof (intro conjI impI)
  show "getShortPackageName root (getShortPackageName root x) = getShortPackageName root x
      \<longleftrightarrow> \<not> str_includes (getShortPackageName root x) (scope_token root)"
    unfolding getShortPackageName_def
    using replace_first_fixed_iff [OF scope_token_nonempty] by simp
next
  assume "\<not> str_includes x (scope_token root)"
  then show "getShortPackageName root (getShortPackageName root x) = getShortPackageName root x"
    unfolding getShortPackageName_def by (simp add: replace_first_absent)
next
  assume h: "\<not> str_includes y (scope_token root)"
  have "getShortPackageName root (scope_token root @ y) = y"
    unfolding getShortPackageName_def by (simp add: replace_first_prefix)
  moreover have "getShortPackageName root y = y"
    unfolding getShortPackageName_def using h by (simp add: replace_first_absent)
  ultimately show "getShortPackageName root (getShortPackageName root (scope_token root @ y)) =
      getShortPackageName root (scope_token root @ y)" by simp
qed

theorem getShortPackageName_idempotent_iff_witness:
  "getShortPackageName ''root'' (getShortPackageName ''root'' ''@root/ui'') =
     getShortPackageName ''root'' ''@root/ui'' \<and>
   getShortPackageName ''root'' (getShortPackageName ''root'' ''lodash'') =
     getShortPackageName ''root'' ''lodash'' \<and>
   str_includes (getShortPackageName ''root'' ''@ro@root/ot/a'') (scope_token ''root'')"
proof -
  have a: "\<not> str_includes ''ui'' (scope_token ''root'')" by (simp add: scope_token_def)
  have b: "\<not> str_includes ''lodash'' (scope_token ''root'')" by (simp add: scope_token_def)
  have c: "getShortPackageName ''root'' (getShortPackageName ''root'' ''@ro@root/ot/a'') \<noteq>
           getShortPackageName ''root'' ''@ro@root/ot/a''"
    by (simp add: getShortPackageName_def scope_token_def)
  have t: "scope_token ''root'' @ ''ui'' = ''@root/ui''" by (simp add: scope_token_def)
  from getShortPackageName_idempotent_iff [of "''root''" "''lodash''" "''ui''"] a b t
  have 1: "getShortPackageName ''root'' (getShortPackageName ''root'' ''@root/ui'') =
     getShortPackageName ''root'' ''@root/ui''"
    and 2: "getShortPackageName ''root'' (getShortPackageName ''root'' ''lodash'') =
     getShortPackageName ''root'' ''lodash''" by simp_all
  from getShortPackageName_idempotent_iff [of "''root''" "''@ro@root/ot/a''" "''ui''"] c
  have 3: "str_includes (getShortPackageName ''root'' ''@ro@root/ot/a'') (scope_token ''root'')"
    by blast
  from 1 2 3 show ?thesis by blast
qed

text \<open>
  C5 as stated fails: in \<open>@ro@root/ot/a\<close> the only occurrence of \<open>@root/\<close> starts at the
  fourth character; removing it leaves \<open>@root/a\<close>, and a second application gives \<open>a\<close>.
\<close>

theorem getShortPackageName_idempotent_counterexample:
  "getShortPackageName ''root'' (getShortPackageName ''root'' ''@ro@root/ot/a'') \<noteq>
   getShortPackageName ''root'' ''@ro@root/ot/a''"
  by (simp add: getShortPackageName_def scope_token_def)

section \<open>Facts about the evaluator\<close>

lemma restrict_loop_eq:
  "restrict_loop sc si rs = (if si \<in> set rs then [report_text (msg_restricted sc si)] else [])"
  by (induction rs) (auto simp: reportLayerBreakingImport_def)

lemma handleAbsoluteImport_eq:
  "handleAbsoluteImport root cur (Some al) r importPath =
     (if getShortPackageName root importPath \<notin> set al \<and> ''*'' \<notin> set al
      then Inr [report_text (msg_not_allowed (getShortPackageName root importPath)
                                             (getShortPackageName root cur))]
      else (case r of
              None \<Rightarrow> Inl TypeError
            | Some rs \<Rightarrow>
                Inr (if getShortPackageName root importPath \<in> set rs
                     then [report_text (msg_restricted (getShortPackageName root cur)
                                                       (getShortPackageName root importPath))]
                     else [])))"
  by (auto simp: handleAbsoluteImport_def Let_def list_ex_iff restrict_loop_eq
      reportLayerBreakingImport_def split: option.splits)

lemma ImportDeclaration_absolute:
  "str_includes importPath root \<Longrightarrow> \<not> isRelativeImport importPath \<Longrightarrow>
   ImportDeclaration root fs rd v importPath =
     handleAbsoluteImport root (v_currentPackageName v) (v_allow v) (v_restrict v) importPath"
  by (simp add: ImportDeclaration_def)

lemma findConfigByPackageName_default:
  "\<forall>e \<in> set options. target e \<noteq> getShortPackageName root name \<Longrightarrow>
   findConfigByPackageName root options (Some name) =
     Inr \<lparr>target = getShortPackageName root name, allow = Some [''*''], restrict = Some []\<rparr>"
proof -
  assume h: "\<forall>e \<in> set options. target e \<noteq> getShortPackageName root name"
  then have "find (\<lambda>e. getShortPackageName root name = target e) options = None"
    unfolding find_None_iff by auto
  then show ?thesis by (simp add: findConfigByPackageName_def)
qed

lemma ImportDeclaration_wildcard:
  "\<not> isRelativeImport importPath \<Longrightarrow>
   ImportDeclaration root fs rd \<lparr>v_currentPackageName = name, v_allow = Some [''*''],
     v_restrict = Some []\<rparr> importPath = Inr []"
  by (simp add: ImportDeclaration_def handleAbsoluteImport_eq)

lemma visit_all_wildcard:
  "\<forall>i \<in> set importPaths. \<not> isRelativeImport i \<Longrightarrow>
   visit_all root fs rd \<lparr>v_currentPackageName = name, v_allow = Some [''*''],
     v_restrict = Some []\<rparr> importPaths = Inr []"
  by (induction importPaths) (simp_all add: ImportDeclaration_wildcard)

lemma example_owner:
  "packageMap_get example_registry
     (findPackageJson example_fs [''proj'', ''core'', ''src'', ''a.js'']) = Some ''@root/core''"
  by (simp add: example_fs_def example_registry_def findPackageJson_def dirname_def
      existsSync_def packageMap_get_def)

lemma getPackageNameFromPath_examples:
  "getPackageNameFromPath example_fs [''proj''] ''../ui/root.js'' = Some ''@root/ui''"
  "getPackageNameFromPath example_fs [''proj''] ''../ui/button'' = Some ''@root/ui''"
  "getPackageNameFromPath example_fs [''proj''] ''../../gone/root'' = None"
  by (simp_all add: example_fs_def getPackageNameFromPath_def normalize_def normalizeString_def
      normalize_step_def)

lemma lint_file_no_owner:
  "packageMap_get packageMap (findPackageJson fs filename) = None \<Longrightarrow>
   create root fs packageMap options filename = Inl TypeError \<and>
   lint_file root fs rootDirectory packageMap options filename importPaths = Inl TypeError"
  by (simp add: lint_file_def create_def findConfigByPackageName_def)

section \<open>Relative imports\<close>

text \<open>
  C1 (as amended). A relative import (the path contains \<open>..\<close>) whose path contains the
  root name and whose resolved package name differs from the current package's name,
  or does not resolve, is reported with "Layer-breaking relative import detected",
  whatever allow and restrict are (the visitor \<open>v\<close> is arbitrary); a relative import
  whose path does not contain the root name is ignored.
\<close>

theorem relative_import_crossing_package:
  assumes "isRelativeImport importPath"
  shows "(str_includes importPath root \<and>
          getPackageNameFromPath fs rootDirectory importPath \<noteq> Some (v_currentPackageName v) \<longrightarrow>
            ImportDeclaration root fs rootDirectory v importPath =
              Inr [report_text msg_relative]) \<and>
         (\<not> str_includes importPath root \<longrightarrow>
            ImportDeclaration root fs rootDirectory v importPath = Inr [])"
  using assms
  by (simp add: ImportDeclaration_def handleRelativeImport_def reportLayerBreakingImport_def)

theorem relative_import_crossing_package_witness:
  "ImportDeclaration ''root'' example_fs [''proj''] (core_visitor (Some [''*'']) None)
     ''../ui/root.js'' = Inr [report_text msg_relative] \<and>
   ImportDeclaration ''root'' example_fs [''proj''] (core_visitor None (Some [''ui'']))
     ''../../gone/root'' = Inr [report_text msg_relative] \<and>
   ImportDeclaration ''root'' example_fs [''proj''] (core_visitor (Some [''*'']) (Some []))
     ''../ui/button'' = Inr []"
proof -
  have r: "isRelativeImport ''../ui/root.js''" "isRelativeImport ''../../gone/root''"
    "isRelativeImport ''../ui/button''"
    by (simp_all add: isRelativeImport_def)
  have i: "str_includes ''../ui/root.js'' ''root''" "str_includes ''../../gone/root'' ''root''"
    "\<not> str_includes ''../ui/button'' ''root''"
    by simp_all
  from relative_import_crossing_package [OF r(1), of "''root''" example_fs "[''proj'']"
      "core_visitor (Some [''*'']) None"] i(1)
  have 1: "ImportDeclaration ''root'' example_fs [''proj''] (core_visitor (Some [''*'']) None)
     ''../ui/root.js'' = Inr [report_text msg_relative]"
    by (simp add: getPackageNameFromPath_examples core_visitor_def)
  from relative_import_crossing_package [OF r(2), of "''root''" example_fs "[''proj'']"
      "core_visitor None (Some [''ui''])"] i(2)
  have 2: "ImportDeclaration ''root'' example_fs [''proj''] (core_visitor None (Some [''ui'']))
     ''../../gone/root'' = Inr [report_text msg_relative]"
    by (simp add: getPackageNameFromPath_examples core_visitor_def)
  from relative_import_crossing_package [OF r(3), of "''root''" example_fs "[''proj'']"
      "core_visitor (Some [''*'']) (Some [])"] i(3)
  have 3: "ImportDeclaration ''root'' example_fs [''proj''] (core_visitor (Some [''*'']) (Some []))
     ''../ui/button'' = Inr []"
    by blast
  from 1 2 3 show ?thesis by blast
qed

text \<open>
  C1 as stated fails: in a file of \<open>@root/core\<close> the import \<open>../ui/button\<close> is relative
  and resolves to \<open>@root/ui\<close>, but the path does not contain \<open>root\<close> and nothing is
  reported.
\<close>

theorem relative_import_without_token_counterexample:
  "create ''root'' example_fs example_registry [] [''proj'', ''core'', ''src'', ''a.js''] =
     Inr (core_visitor (Some [''*'']) (Some [])) \<and>
   isRelativeImport ''../ui/button'' \<and>
   getPackageNameFromPath example_fs [''proj''] ''../ui/button'' = Some ''@root/ui'' \<and>
   ''@root/ui'' \<noteq> v_currentPackageName (core_visitor (Some [''*'']) (Some [])) \<and>
   ImportDeclaration ''root'' example_fs [''proj''] (core_visitor (Some [''*'']) (Some []))
     ''../ui/button'' = Inr []"
proof -
  have "create ''root'' example_fs example_registry [] [''proj'', ''core'', ''src'', ''a.js''] =
     Inr (core_visitor (Some [''*'']) (Some []))"
    using example_owner by (simp add: create_def findConfigByPackageName_def core_visitor_def)
  moreover have "ImportDeclaration ''root'' example_fs [''proj'']
     (core_visitor (Some [''*'']) (Some [])) ''../ui/button'' = Inr []"
    by (simp add: ImportDeclaration_def)
  ultimately show ?thesis
    by (simp add: getPackageNameFromPath_examples isRelativeImport_def core_visitor_def)
qed

section \<open>Absolute imports\<close>

text \<open>
  The decision order when the lists are arrays. For an absolute internal import (the
  path contains the root name and no \<open>..\<close>) whose visitor has an array \<open>allow\<close>, the
  allow-list is checked first: when the short name of the import is not in \<open>allow\<close>
  and \<open>allow\<close> has no \<open>*\<close>, exactly one report "not in allow-list of" is emitted,
  whatever \<open>restrict\<close> is (it is not looked at, so it may even be \<open>undefined\<close>);
  otherwise, with an array \<open>restrict\<close>, exactly one report "is restricted from
  importing" is emitted when the short name is in it, and nothing is reported when it
  is not.
\<close>

theorem absolute_import_allow_then_restrict:
  assumes "str_includes importPath root" and "\<not> isRelativeImport importPath"
    and "v_allow v = Some allow_list"
  shows
   "(getShortPackageName root importPath \<notin> set allow_list \<and> ''*'' \<notin> set allow_list \<longrightarrow>
       ImportDeclaration root fs rootDirectory v importPath =
         Inr [report_text (msg_not_allowed (getShortPackageName root importPath)
                             (getShortPackageName root (v_currentPackageName v)))]) \<and>
    ((getShortPackageName root importPath \<in> set allow_list \<or> ''*'' \<in> set allow_list) \<and>
     v_restrict v = Some restrict_list \<and>
     getShortPackageName root importPath \<in> set restrict_list \<longrightarrow>
       ImportDeclaration root fs rootDirectory v importPath =
         Inr [report_text (msg_restricted (getShortPackageName root (v_currentPackageName v))
                             (getShortPackageName root importPath))]) \<and>
    ((getShortPackageName root importPath \<in> set allow_list \<or> ''*'' \<in> set allow_list) \<and>
     v_restrict v = Some restrict_list \<and>
     getShortPackageName root importPath \<notin> set restrict_list \<longrightarrow>
       ImportDeclaration root fs rootDirectory v importPath = Inr [])"
  using assms by (auto simp: ImportDeclaration_absolute handleAbsoluteImport_eq)

theorem absolute_import_allow_then_restrict_witness:
  "ImportDeclaration ''root'' example_fs [''proj''] (core_visitor (Some [''data'']) None) ''@root/ui'' =
     Inr [report_text (msg_not_allowed ''ui'' ''core'')] \<and>
   ImportDeclaration ''root'' example_fs [''proj'']
       (core_visitor (Some [''*'']) (Some [''ui''])) ''@root/ui'' =
     Inr [report_text (msg_restricted ''core'' ''ui'')] \<and>
   ImportDeclaration ''root'' example_fs [''proj'']
       (core_visitor (Some [''*'']) (Some [''ui''])) ''@root/data'' = Inr []"
proof -
  have s: "getShortPackageName ''root'' ''@root/ui'' = ''ui''"
    "getShortPackageName ''root'' ''@root/data'' = ''data''"
    "getShortPackageName ''root'' ''@root/core'' = ''core''"
    by (simp_all add: getShortPackageName_def scope_token_def)
  have i: "str_includes ''@root/ui'' ''root''" "\<not> isRelativeImport ''@root/ui''"
    "str_includes ''@root/data'' ''root''" "\<not> isRelativeImport ''@root/data''"
    by (simp_all add: isRelativeImport_def)
  from absolute_import_allow_then_restrict [OF i(1) i(2),
      where v = "core_visitor (Some [''data'']) None" and allow_list = "[''data'']"
        and fs = example_fs and rootDirectory = "[''proj'']" and restrict_list = "[]"]
  have 1: "ImportDeclaration ''root'' example_fs [''proj''] (core_visitor (Some [''data'']) None)
             ''@root/ui'' = Inr [report_text (msg_not_allowed ''ui'' ''core'')]"
    by (simp add: s core_visitor_def)
  from absolute_import_allow_then_restrict [OF i(1) i(2),
      where v = "core_visitor (Some [''*'']) (Some [''ui''])" and allow_list = "[''*'']"
        and fs = example_fs and rootDirectory = "[''proj'']" and restrict_list = "[''ui'']"]
  have 2: "ImportDeclaration ''root'' example_fs [''proj'']
             (core_visitor (Some [''*'']) (Some [''ui''])) ''@root/ui'' =
           Inr [report_text (msg_restricted ''core'' ''ui'')]"
    by (simp add: s core_visitor_def)
  from absolute_import_allow_then_restrict [OF i(3) i(4),
      where v = "core_visitor (Some [''*'']) (Some [''ui''])" and allow_list = "[''*'']"
        and fs = example_fs and rootDirectory = "[''proj'']" and restrict_list = "[''ui'']"]
  have 3: "ImportDeclaration ''root'' example_fs [''proj'']
             (core_visitor (Some [''*'']) (Some [''ui''])) ''@root/data'' = Inr []"
    by (simp add: s core_visitor_def)
  from 1 2 3 show ?thesis by blast
qed

text \<open>
  C2 fails on the code. The schema of the rule requires \<open>target\<close> only, so an element
  of the options may leave out \<open>restrict\<close> or \<open>allow\<close>. With the policy
  \<open>{target: "core", allow: ["data"]}\<close> the import \<open>@root/data\<close> passes the allow check
  and the loop over the missing \<open>restrict\<close> throws a TypeError, where the claim has no
  report; with \<open>{target: "core", restrict: []}\<close> the call \<open>allow.some\<close> throws for
  \<open>@root/ui\<close>, where the claim has the report "not in allow-list of".
\<close>

theorem omitted_list_throws:
  "create ''root'' example_fs example_registry
     [\<lparr>target = ''core'', allow = Some [''data''], restrict = None\<rparr>]
     [''proj'', ''core'', ''src'', ''a.js''] = Inr (core_visitor (Some [''data'']) None) \<and>
   getShortPackageName ''root'' ''@root/data'' = ''data'' \<and>
   ImportDeclaration ''root'' example_fs [''proj''] (core_visitor (Some [''data'']) None)
     ''@root/data'' = Inl TypeError \<and>
   lint_file ''root'' example_fs [''proj''] example_registry
     [\<lparr>target = ''core'', allow = Some [''data''], restrict = None\<rparr>]
     [''proj'', ''core'', ''src'', ''a.js''] [''@root/data''] = Inl TypeError \<and>
   create ''root'' example_fs example_registry
     [\<lparr>target = ''core'', allow = None, restrict = Some []\<rparr>]
     [''proj'', ''core'', ''src'', ''a.js''] = Inr (core_visitor None (Some [])) \<and>
   ImportDeclaration ''root'' example_fs [''proj''] (core_visitor None (Some []))
     ''@root/ui'' = Inl TypeError"
proof -
  have s: "getShortPackageName ''root'' ''@root/core'' = ''core''"
    "getShortPackageName ''root'' ''@root/data'' = ''data''"
    by (simp_all add: getShortPackageName_def scope_token_def)
  have c1: "create ''root'' example_fs example_registry
     [\<lparr>target = ''core'', allow = Some [''data''], restrict = None\<rparr>]
     [''proj'', ''core'', ''src'', ''a.js''] = Inr (core_visitor (Some [''data'']) None)"
    using example_owner by (simp add: create_def findConfigByPackageName_def core_visitor_def s)
  have c2: "create ''root'' example_fs example_registry
     [\<lparr>target = ''core'', allow = None, restrict = Some []\<rparr>]
     [''proj'', ''core'', ''src'', ''a.js''] = Inr (core_visitor None (Some []))"
    using example_owner by (simp add: create_def findConfigByPackageName_def core_visitor_def s)
  have i1: "ImportDeclaration ''root'' example_fs [''proj''] (core_visitor (Some [''data'']) None)
     ''@root/data'' = Inl TypeError"
    by (simp add: ImportDeclaration_def isRelativeImport_def handleAbsoluteImport_eq
        core_visitor_def s)
  have i2: "ImportDeclaration ''root'' example_fs [''proj''] (core_visitor None (Some []))
     ''@root/ui'' = Inl TypeError"
    by (simp add: ImportDeclaration_def isRelativeImport_def handleAbsoluteImport_def
        core_visitor_def)
  have l: "lint_file ''root'' example_fs [''proj''] example_registry
     [\<lparr>target = ''core'', allow = Some [''data''], restrict = None\<rparr>]
     [''proj'', ''core'', ''src'', ''a.js''] [''@root/data''] = Inl TypeError"
    using c1 i1 by (simp add: lint_file_def)
  from c1 c2 i1 i2 l s(2) show ?thesis by blast
qed



text \<open>
  C4. When no element of the options has the short name of the file's package as its
  target, \<open>findConfigByPackageName\<close> returns the default with \<open>allow = ["*"]\<close> and
  \<open>restrict = []\<close>, the visitor is built from it, and every import without \<open>..\<close> of
  the file (so every absolute internal one) is evaluated without report.
\<close>

theorem default_policy_allows_all:
  assumes "packageMap_get packageMap (findPackageJson fs filename) = Some name"
    and "\<forall>e \<in> set options. target e \<noteq> getShortPackageName root name"
    and "\<forall>i \<in> set importPaths. \<not> isRelativeImport i"
  shows "findConfigByPackageName root options (Some name) =
           Inr \<lparr>target = getShortPackageName root name, allow = Some [''*''],
                restrict = Some []\<rparr> \<and>
         create root fs packageMap options filename =
           Inr \<lparr>v_currentPackageName = name, v_allow = Some [''*''], v_restrict = Some []\<rparr> \<and>
         (\<forall>i \<in> set importPaths.
            ImportDeclaration root fs rootDirectory
              \<lparr>v_currentPackageName = name, v_allow = Some [''*''], v_restrict = Some []\<rparr> i =
            Inr []) \<and>
         lint_file root fs rootDirectory packageMap options filename importPaths = Inr []"
proof -
  note cfg = findConfigByPackageName_default [OF assms(2)]
  have cr: "create root fs packageMap options filename =
           Inr \<lparr>v_currentPackageName = name, v_allow = Some [''*''], v_restrict = Some []\<rparr>"
    using assms(1) cfg by (simp add: create_def)
  have "lint_file root fs rootDirectory packageMap options filename importPaths = Inr []"
    using cr visit_all_wildcard [OF assms(3)] by (simp add: lint_file_def)
  with cfg cr assms(3) show ?thesis by (simp add: ImportDeclaration_wildcard)
qed

theorem default_policy_allows_all_witness:
  "findConfigByPackageName ''root'' [\<lparr>target = ''ui'', allow = Some [], restrict = None\<rparr>]
     (Some ''@root/core'') =
     Inr \<lparr>target = ''core'', allow = Some [''*''], restrict = Some []\<rparr> \<and>
   lint_file ''root'' example_fs [''proj''] example_registry
     [\<lparr>target = ''ui'', allow = Some [], restrict = None\<rparr>]
     [''proj'', ''core'', ''src'', ''a.js''] [''@root/ui'', ''@root/data/x'', ''lodash''] = Inr []"
proof -
  have s: "getShortPackageName ''root'' ''@root/core'' = ''core''"
    by (simp add: getShortPackageName_def scope_token_def)
  have b: "\<forall>e \<in> set [\<lparr>target = ''ui'', allow = Some [], restrict = None\<rparr>].
             target e \<noteq> getShortPackageName ''root'' ''@root/core''"
    by (simp add: s)
  have c: "\<forall>i \<in> set [''@root/ui'', ''@root/data/x'', ''lodash'']. \<not> isRelativeImport i"
    by (simp add: isRelativeImport_def)
  from default_policy_allows_all [OF example_owner b c, of "[''proj'']"]
  show ?thesis by (simp add: s)
qed

section \<open>Files without an owning package\<close>

text \<open>
  C3 fails on the code. For \<open>/tmp/tool.js\<close> no ancestor has a manifest: the lookup is
  \<open>null\<close>, the package name is \<open>undefined\<close>, and \<open>create\<close> throws a TypeError in
  \<open>getShortPackageName\<close> before any import is visited, instead of skipping the file.
\<close>

theorem file_without_owner_throws:
  "findInternalPackageNames example_fs [''proj''] = Inr example_registry \<and>
   findPackageJson example_fs [''tmp'', ''tool.js''] = None \<and>
   create ''root'' example_fs example_registry [] [''tmp'', ''tool.js''] = Inl TypeError \<and>
   lint_file ''root'' example_fs [''proj''] example_registry [] [''tmp'', ''tool.js'']
     [''lodash''] = Inl TypeError"
proof -
  have 1: "findInternalPackageNames example_fs [''proj''] = Inr example_registry"
    by (simp add: example_fs_def example_registry_def findInternalPackageNames_def)
  have 2: "findPackageJson example_fs [''tmp'', ''tool.js''] = None"
    by (simp add: example_fs_def findPackageJson_def dirname_def existsSync_def)
  then have "packageMap_get example_registry (findPackageJson example_fs [''tmp'', ''tool.js''])
             = None"
    by (simp add: packageMap_get_def)
  from lint_file_no_owner [OF this] 1 2 show ?thesis by blast
qed

section \<open>Facts about the file system and the scan\<close>

lemma fs_lookup_File_snoc: "fs_lookup (File c) (p @ [x]) = None"
  by (cases p) simp_all

lemma fs_lookup_append:
  "fs_lookup n (p @ q) = (case fs_lookup n p of None \<Rightarrow> None | Some m \<Rightarrow> fs_lookup m q)"
proof (induction n p rule: fs_lookup.induct)
  case (1 n)
  then show ?case by simp
next
  case (2 c x p)
  then show ?case by simp
next
  case (3 es x p)
  then show ?case by (simp split: option.splits)
qed

lemma fs_lookup_skip:
  "fs_lookup (Dir ((f, n) # rest)) (rel @ [x]) = Some t \<Longrightarrow> hd (rel @ [x]) \<noteq> f \<Longrightarrow>
   fs_lookup (Dir rest) (rel @ [x]) = Some t"
  by (cases rel) (simp_all split: if_splits)

lemma traverse_error: "traverse dir es reg = Inl e \<Longrightarrow> e = ManifestError"
  by (induction dir es reg rule: traverse.induct)
     (auto split: if_splits sum.splits manifest.splits)

lemma traverse_mono:
  "traverse dir es reg = Inr reg' \<Longrightarrow> k \<in> fst ` set reg \<Longrightarrow> k \<in> fst ` set reg'"
proof (induction dir es reg arbitrary: reg' rule: traverse.induct)
  case (1 dir reg)
  then show ?case by simp
next
  case (2 dir f es rest reg)
  show ?case
  proof (cases "f \<noteq> ''node_modules''")
    case True
    with "2.prems"(1) obtain r1 where r1: "traverse (dir @ [f]) es reg = Inr r1"
      and r2: "traverse dir rest r1 = Inr reg'"
      by (auto split: sum.splits)
    from "2.IH"(1) [OF True r1 "2.prems"(2)] have "k \<in> fst ` set r1" .
    from "2.IH"(2) [OF True r1 r2 this] show ?thesis .
  next
    case False
    with "2.prems" "2.IH"(3) show ?thesis by simp
  qed
next
  case (3 dir f c rest reg)
  show ?case
  proof (cases "f = ''package.json''")
    case True
    with "3.prems"(1) obtain n where c: "c = Manifest n"
      and r: "traverse dir rest (AList.update dir n reg) = Inr reg'"
      by (auto split: manifest.splits)
    from "3.prems"(2) have "k \<in> fst ` set (AList.update dir n reg)" by (simp add: dom_update)
    from "3.IH"(1) [OF True c r this] show ?thesis .
  next
    case False
    with "3.prems" "3.IH"(2) show ?thesis by simp
  qed
qed

lemma traverse_keys:
  "traverse dir es reg = Inr reg' \<Longrightarrow> k \<in> fst ` set reg' \<Longrightarrow>
   k \<in> fst ` set reg \<or> (\<exists>rel. k = dir @ rel \<and> ''node_modules'' \<notin> set rel)"
proof (induction dir es reg arbitrary: reg' rule: traverse.induct)
  case (1 dir reg)
  then show ?case by simp
next
  case (2 dir f es rest reg)
  show ?case
  proof (cases "f \<noteq> ''node_modules''")
    case True
    with "2.prems"(1) obtain r1 where r1: "traverse (dir @ [f]) es reg = Inr r1"
      and r2: "traverse dir rest r1 = Inr reg'"
      by (auto split: sum.splits)
    from "2.IH"(2) [OF True r1 r2 "2.prems"(2)]
    consider "k \<in> fst ` set r1" | "\<exists>rel. k = dir @ rel \<and> ''node_modules'' \<notin> set rel"
      by blast
    then show ?thesis
    proof cases
      case 1
      from "2.IH"(1) [OF True r1 1]
      consider "k \<in> fst ` set reg"
        | rel where "k = (dir @ [f]) @ rel" "''node_modules'' \<notin> set rel"
        by blast
      then show ?thesis
      proof cases
        case 1
        then show ?thesis by simp
      next
        case 2
        then have "k = dir @ (f # rel) \<and> ''node_modules'' \<notin> set (f # rel)"
          using True by simp
        then show ?thesis by blast
      qed
    next
      case 2
      then show ?thesis by simp
    qed
  next
    case False
    with "2.prems" "2.IH"(3) show ?thesis by simp
  qed
next
  case (3 dir f c rest reg)
  show ?case
  proof (cases "f = ''package.json''")
    case True
    with "3.prems"(1) obtain n where c: "c = Manifest n"
      and r: "traverse dir rest (AList.update dir n reg) = Inr reg'"
      by (auto split: manifest.splits)
    from "3.IH"(1) [OF True c r "3.prems"(2)]
    consider "k \<in> fst ` set (AList.update dir n reg)"
      | "\<exists>rel. k = dir @ rel \<and> ''node_modules'' \<notin> set rel" by blast
    then show ?thesis
    proof cases
      case 1
      then have "k = dir \<or> k \<in> fst ` set reg" by (simp add: dom_update)
      then show ?thesis
      proof
        assume "k = dir"
        then have "k = dir @ [] \<and> ''node_modules'' \<notin> set []" by simp
        then show ?thesis by blast
      qed simp
    next
      case 2
      then show ?thesis by simp
    qed
  next
    case False
    with "3.prems" "3.IH"(2) show ?thesis by simp
  qed
qed

lemma traverse_unloadable:
  "fs_lookup (Dir es) (rel @ [''package.json'']) = Some (File Unloadable) \<Longrightarrow>
   ''node_modules'' \<notin> set rel \<Longrightarrow> traverse dir es reg = Inl ManifestError"
proof (induction dir es reg arbitrary: rel rule: traverse.induct)
  case (1 dir reg)
  then show ?case by (cases rel) simp_all
next
  case (2 dir f es rest reg)
  show ?case
  proof (cases "f \<noteq> ''node_modules''")
    case True
    show ?thesis
    proof (cases "traverse (dir @ [f]) es reg")
      case (Inl e)
      with traverse_error [OF Inl] True show ?thesis by simp
    next
      case (Inr r1)
      have here: "fs_lookup (Dir rest) (rel @ [''package.json'']) = Some (File Unloadable)"
      proof (cases rel)
        case Nil
        with "2.prems"(1) show ?thesis by (auto split: if_splits)
      next
        case (Cons x rel')
        show ?thesis
        proof (cases "x = f")
          case True
          with Cons "2.prems" have "fs_lookup (Dir es) (rel' @ [''package.json'']) =
              Some (File Unloadable)" "''node_modules'' \<notin> set rel'"
            by simp_all
          from "2.IH"(1) [OF \<open>f \<noteq> ''node_modules''\<close> this] Inr show ?thesis by simp
        next
          case False
          with Cons "2.prems"(1) show ?thesis by simp
        qed
      qed
      from "2.IH"(2) [OF True Inr here "2.prems"(2)] Inr True show ?thesis by simp
    qed
  next
    case False
    have "fs_lookup (Dir rest) (rel @ [''package.json'']) = Some (File Unloadable)"
    proof (cases rel)
      case Nil
      with "2.prems"(1) show ?thesis by (auto split: if_splits)
    next
      case (Cons x rel')
      with "2.prems"(2) False have "x \<noteq> f" by auto
      with Cons "2.prems"(1) show ?thesis by simp
    qed
    from "2.IH"(3) [OF _ this "2.prems"(2)] False show ?thesis by simp
  qed
next
  case (3 dir f c rest reg)
  show ?case
  proof (cases "f = ''package.json''")
    case True
    show ?thesis
    proof (cases c)
      case Unloadable
      with True show ?thesis by simp
    next
      case (Manifest n)
      have "fs_lookup (Dir rest) (rel @ [''package.json'']) = Some (File Unloadable)"
      proof (cases rel)
        case Nil
        with "3.prems"(1) True Manifest show ?thesis by simp
      next
        case (Cons x rel')
        with "3.prems"(1) show ?thesis by (cases "x = f") (simp_all add: fs_lookup_File_snoc split: option.splits)
      qed
      from "3.IH"(1) [OF True Manifest this "3.prems"(2)] True Manifest show ?thesis by simp
    qed
  next
    case False
    have "fs_lookup (Dir rest) (rel @ [''package.json'']) = Some (File Unloadable)"
    proof (cases rel)
      case Nil
      with "3.prems"(1) False show ?thesis by simp
    next
      case (Cons x rel')
      with "3.prems"(1) show ?thesis by (cases "x = f") (simp_all add: fs_lookup_File_snoc split: option.splits)
    qed
    from "3.IH"(2) [OF False this "3.prems"(2)] False show ?thesis by simp
  qed
qed

lemma traverse_registers:
  "fs_lookup (Dir es) (rel @ [''package.json'']) = Some (File c) \<Longrightarrow>
   ''node_modules'' \<notin> set rel \<Longrightarrow> traverse dir es reg = Inr reg' \<Longrightarrow>
   dir @ rel \<in> fst ` set reg'"
proof (induction dir es reg arbitrary: rel reg' rule: traverse.induct)
  case (1 dir reg)
  then show ?case by (cases rel) simp_all
next
  case (2 dir f es rest reg)
  show ?case
  proof (cases "hd (rel @ [''package.json'']) = f")
    case True
    then obtain rel' where rel: "rel = f # rel'"
      using "2.prems"(1) by (cases rel) auto
    with "2.prems"(1,2) have sub: "fs_lookup (Dir es) (rel' @ [''package.json'']) = Some (File c)"
      and nm: "f \<noteq> ''node_modules''" "''node_modules'' \<notin> set rel'"
      by auto
    from "2.prems"(3) nm(1) obtain r1 where r1: "traverse (dir @ [f]) es reg = Inr r1"
      and r2: "traverse dir rest r1 = Inr reg'"
      by (auto split: sum.splits)
    from "2.IH"(1) [OF nm(1) sub nm(2) r1] have "(dir @ [f]) @ rel' \<in> fst ` set r1" .
    from traverse_mono [OF r2 this] rel show ?thesis by simp
  next
    case False
    note here = fs_lookup_skip [OF "2.prems"(1) False]
    show ?thesis
    proof (cases "f \<noteq> ''node_modules''")
      case True
      with "2.prems"(3) obtain r1 where r1: "traverse (dir @ [f]) es reg = Inr r1"
        and r2: "traverse dir rest r1 = Inr reg'"
        by (auto split: sum.splits)
      from "2.IH"(2) [OF True r1 here "2.prems"(2) r2] show ?thesis .
    next
      case nm: False
      with "2.prems"(3) have "traverse dir rest reg = Inr reg'" by simp
      from "2.IH"(3) [OF nm here "2.prems"(2) this] show ?thesis .
    qed
  qed
next
  case (3 dir f m rest reg)
  show ?case
  proof (cases "hd (rel @ [''package.json'']) = f")
    case True
    have rel: "rel = []"
    proof (cases rel)
      case (Cons x rel')
      with True "3.prems"(1) show ?thesis by (simp add: fs_lookup_File_snoc)
    qed simp
    with True have f: "f = ''package.json''" by simp
    with "3.prems"(3) obtain n where m: "m = Manifest n"
      and r: "traverse dir rest (AList.update dir n reg) = Inr reg'"
      by (auto split: manifest.splits)
    have "dir \<in> fst ` set (AList.update dir n reg)" by (simp add: dom_update)
    from traverse_mono [OF r this] rel show ?thesis by simp
  next
    case False
    note here = fs_lookup_skip [OF "3.prems"(1) False]
    show ?thesis
    proof (cases "f = ''package.json''")
      case True
      with "3.prems"(3) obtain n where m: "m = Manifest n"
        and r: "traverse dir rest (AList.update dir n reg) = Inr reg'"
        by (auto split: manifest.splits)
      from "3.IH"(1) [OF True m here "3.prems"(2) r] show ?thesis .
    next
      case nf: False
      with "3.prems"(3) have "traverse dir rest reg = Inr reg'" by simp
      from "3.IH"(2) [OF nf here "3.prems"(2) this] show ?thesis .
    qed
  qed
qed

lemma scan_registers:
  assumes "findInternalPackageNames fs rootDirectory = Inr packageMap"
    and "fs_lookup fs (rootDirectory @ rel @ [''package.json'']) = Some (File c)"
    and "''node_modules'' \<notin> set rel"
  shows "rootDirectory @ rel \<in> fst ` set packageMap"
proof -
  from assms(2) obtain n where n: "fs_lookup fs rootDirectory = Some n"
    and l: "fs_lookup n (rel @ [''package.json'']) = Some (File c)"
    by (auto simp: fs_lookup_append split: option.splits)
  from l obtain es where es: "n = Dir es" by (cases n) (simp_all add: fs_lookup_File_snoc)
  from assms(1) n es have "traverse rootDirectory es [] = Inr packageMap"
    by (simp add: findInternalPackageNames_def)
  from traverse_registers [OF l [unfolded es] assms(3) this] show ?thesis .
qed

lemma example_scan: "findInternalPackageNames example_fs [''proj''] = Inr example_registry"
  by (simp add: example_fs_def example_registry_def findInternalPackageNames_def)

lemma prefix_butlast_iff:
  "cur \<noteq> [] \<Longrightarrow> prefix d cur \<longleftrightarrow> d = cur \<or> prefix d (butlast cur)"
proof -
  assume "cur \<noteq> []"
  then have "cur = butlast cur @ [last cur]" by simp
  then have "prefix d cur \<longleftrightarrow> prefix d (butlast cur @ [last cur])" by simp
  also have "\<dots> \<longleftrightarrow> d = butlast cur @ [last cur] \<or> prefix d (butlast cur)"
    by (rule prefix_snoc)
  finally show ?thesis using \<open>cur = butlast cur @ [last cur]\<close> by simp
qed

lemma findPackageJson_loop_Some:
  "findPackageJson_loop fs cur = Some d \<longleftrightarrow>
     d \<noteq> [] \<and> prefix d cur \<and> existsSync fs (d @ [''package.json'']) \<and>
     (\<forall>d'. prefix d' cur \<and> length d < length d' \<longrightarrow>
           \<not> existsSync fs (d' @ [''package.json'']))"
proof (induction fs cur rule: findPackageJson_loop.induct)
  case (1 fs cur)
  show ?case
  proof (cases "cur = []")
    case True
    then show ?thesis by simp
  next
    case False
    show ?thesis
    proof (cases "existsSync fs (cur @ [''package.json''])")
      case True
      have "findPackageJson_loop fs cur = Some cur" using False True by simp
      moreover have "d = cur" if "prefix d cur"
        "\<forall>d'. prefix d' cur \<and> length d < length d' \<longrightarrow> \<not> existsSync fs (d' @ [''package.json''])"
      proof (rule ccontr)
        assume "d \<noteq> cur"
        with that(1) have "length d < length cur"
          by (metis prefix_length_le prefix_length_prefix le_neq_implies_less prefix_order.eq_iff
              order_refl)
        with that(2) True show False by blast
      qed
      moreover have "\<not> (prefix d' cur \<and> length cur < length d')" for d'
        using prefix_length_le by fastforce
      ultimately show ?thesis using False True by auto
    next
      case nex: False
      have step: "findPackageJson_loop fs cur = findPackageJson_loop fs (butlast cur)"
        using False nex by (simp add: dirname_def)
      have len: "length (butlast cur) < length cur" using False by simp
      show ?thesis
        unfolding step "1.IH" [OF False nex, unfolded dirname_def]
      proof (intro iffI conjI allI impI; (elim conjE)?)
        assume a: "d \<noteq> []" "prefix d (butlast cur)" "existsSync fs (d @ [''package.json''])"
          "\<forall>d'. prefix d' (butlast cur) \<and> length d < length d' \<longrightarrow>
                \<not> existsSync fs (d' @ [''package.json''])"
        show "d \<noteq> []" by fact
        show "prefix d cur" using a(2) False by (simp add: prefix_butlast_iff)
        show "existsSync fs (d @ [''package.json''])" by fact
        fix d' assume "prefix d' cur" "length d < length d'"
        then show "\<not> existsSync fs (d' @ [''package.json''])"
          using a(4) nex False by (auto simp: prefix_butlast_iff)
      next
        assume b: "d \<noteq> []" "prefix d cur" "existsSync fs (d @ [''package.json''])"
          "\<forall>d'. prefix d' cur \<and> length d < length d' \<longrightarrow>
                \<not> existsSync fs (d' @ [''package.json''])"
        show "d \<noteq> []" by fact
        show "prefix d (butlast cur)" using b(2,3) nex False by (auto simp: prefix_butlast_iff)
        show "existsSync fs (d @ [''package.json''])" by fact
        fix d' assume "prefix d' (butlast cur)" "length d < length d'"
        then show "\<not> existsSync fs (d' @ [''package.json''])"
          using b(4) False by (auto simp: prefix_butlast_iff)
      qed
    qed
  qed
qed

lemma findPackageJson_loop_None:
  "findPackageJson_loop fs cur = None \<longleftrightarrow>
     (\<forall>d'. d' \<noteq> [] \<and> prefix d' cur \<longrightarrow> \<not> existsSync fs (d' @ [''package.json'']))"
proof (induction fs cur rule: findPackageJson_loop.induct)
  case (1 fs cur)
  show ?case
  proof (cases "cur = []")
    case True
    then show ?thesis by simp
  next
    case False
    show ?thesis
    proof (cases "existsSync fs (cur @ [''package.json''])")
      case True
      with False show ?thesis by auto
    next
      case nex: False
      have step: "findPackageJson_loop fs cur = findPackageJson_loop fs (butlast cur)"
        using False nex by (simp add: dirname_def)
      show ?thesis
        unfolding step "1.IH" [OF False nex, unfolded dirname_def]
        using nex False by (auto simp: prefix_butlast_iff)
    qed
  qed
qed

section \<open>The registry\<close>

text \<open>
  C9. Every directory registered by the scan of the project root is the root followed
  by segments none of which is \<open>node_modules\<close>: nothing under a \<open>node_modules\<close>
  directory of the project tree is registered, whether or not it holds a manifest.
\<close>

theorem registry_skips_node_modules:
  assumes "findInternalPackageNames fs rootDirectory = Inr packageMap"
    and "(d, n) \<in> set packageMap"
  shows "\<exists>rel. d = rootDirectory @ rel \<and> ''node_modules'' \<notin> set rel"
proof -
  from assms(1) obtain es where "traverse rootDirectory es [] = Inr packageMap"
    by (auto simp: findInternalPackageNames_def split: option.splits fsnode.splits)
  moreover from assms(2) have "d \<in> fst ` set packageMap" by force
  ultimately show ?thesis using traverse_keys by fastforce
qed

theorem registry_skips_node_modules_witness:
  "fs_lookup example_fs [''proj'', ''node_modules'', ''dep'', ''package.json''] =
     Some (File (Manifest (Some ''dep''))) \<and>
   map_of example_registry [''proj'', ''node_modules'', ''dep''] = None \<and>
   ([''proj'', ''ui''], Some ''@root/ui'') \<in> set example_registry \<and>
   (\<exists>rel. [''proj'', ''ui''] = [''proj''] @ rel \<and> ''node_modules'' \<notin> set rel)"
proof -
  have m: "([''proj'', ''ui''], Some ''@root/ui'') \<in> set example_registry"
    by (simp add: example_registry_def)
  from registry_skips_node_modules [OF example_scan m]
  have "\<exists>rel. [''proj'', ''ui''] = [''proj''] @ rel \<and> ''node_modules'' \<notin> set rel" .
  moreover have "fs_lookup example_fs [''proj'', ''node_modules'', ''dep'', ''package.json''] =
     Some (File (Manifest (Some ''dep'')))"
    by (simp add: example_fs_def)
  moreover have "map_of example_registry [''proj'', ''node_modules'', ''dep''] = None"
    by (simp add: example_registry_def)
  ultimately show ?thesis using m by blast
qed

text \<open>
  C6 (as amended). When a \<open>package.json\<close> that the scan reaches (below the project
  root, on a path without \<open>node_modules\<close>) cannot be read or parsed, the registry
  build stops with the exception: no registry is produced.
\<close>

theorem unloadable_manifest_aborts_scan:
  assumes "fs_lookup fs (rootDirectory @ rel @ [''package.json'']) = Some (File Unloadable)"
    and "''node_modules'' \<notin> set rel"
  shows "findInternalPackageNames fs rootDirectory = Inl ManifestError"
proof -
  from assms(1) obtain n where n: "fs_lookup fs rootDirectory = Some n"
    and l: "fs_lookup n (rel @ [''package.json'']) = Some (File Unloadable)"
    by (auto simp: fs_lookup_append split: option.splits)
  from l obtain es where es: "n = Dir es" by (cases n) (simp_all add: fs_lookup_File_snoc)
  from traverse_unloadable [OF l [unfolded es] assms(2)] n es
  show ?thesis by (simp add: findInternalPackageNames_def)
qed

theorem unloadable_manifest_aborts_scan_witness:
  "findInternalPackageNames broken_fs [''proj''] = Inl ManifestError"
proof -
  have a: "fs_lookup broken_fs ([''proj''] @ [''ui''] @ [''package.json'']) =
             Some (File Unloadable)"
    by (simp add: broken_fs_def)
  have b: "''node_modules'' \<notin> set [''ui'']" by simp
  from unloadable_manifest_aborts_scan [OF a b] show ?thesis .
qed

text \<open>
  C6 as stated fails: with an unparsable manifest in \<open>/proj/ui\<close> the scan does not
  return the registry of the remaining packages, it throws.
\<close>

theorem unloadable_manifest_counterexample:
  "fs_lookup broken_fs [''proj'', ''ui'', ''package.json''] = Some (File Unloadable) \<and>
   findInternalPackageNames broken_fs [''proj''] = Inl ManifestError \<and>
   findInternalPackageNames broken_fs [''proj''] \<noteq>
     Inr [([''proj''], Some ''root''), ([''proj'', ''core''], Some ''@root/core'')]"
  by (simp add: broken_fs_def findInternalPackageNames_def)

text \<open>
  C7 (as amended). \<open>findPackageJson\<close> returns the nearest ancestor directory of the file,
  below the file system root, that has an entry \<open>package.json\<close> on disk, and \<open>null\<close>
  exactly when no ancestor below the root has one. The directory found is a key of the
  registry when the scan succeeded, the directory is the project root followed by
  segments other than \<open>node_modules\<close>, and its \<open>package.json\<close> is not a directory.
\<close>

theorem findPackageJson_nearest_manifest_on_disk:
  "(findPackageJson fs filePath = Some d \<longleftrightarrow>
      d \<noteq> [] \<and> prefix d (dirname filePath) \<and> existsSync fs (d @ [''package.json'']) \<and>
      (\<forall>d'. prefix d' (dirname filePath) \<and> length d < length d' \<longrightarrow>
            \<not> existsSync fs (d' @ [''package.json'']))) \<and>
   (findPackageJson fs filePath = None \<longleftrightarrow>
      (\<forall>d'. d' \<noteq> [] \<and> prefix d' (dirname filePath) \<longrightarrow>
            \<not> existsSync fs (d' @ [''package.json'']))) \<and>
   (findInternalPackageNames fs rootDirectory = Inr packageMap \<and>
    findPackageJson fs filePath = Some (rootDirectory @ rel) \<and>
    ''node_modules'' \<notin> set rel \<and>
    (\<forall>es. fs_lookup fs (rootDirectory @ rel @ [''package.json'']) \<noteq> Some (Dir es)) \<longrightarrow>
      rootDirectory @ rel \<in> fst ` set packageMap)"
proof (intro conjI)
  show "findPackageJson fs filePath = Some d \<longleftrightarrow>
      d \<noteq> [] \<and> prefix d (dirname filePath) \<and> existsSync fs (d @ [''package.json'']) \<and>
      (\<forall>d'. prefix d' (dirname filePath) \<and> length d < length d' \<longrightarrow>
            \<not> existsSync fs (d' @ [''package.json'']))"
    unfolding findPackageJson_def by (rule findPackageJson_loop_Some)
  show "findPackageJson fs filePath = None \<longleftrightarrow>
      (\<forall>d'. d' \<noteq> [] \<and> prefix d' (dirname filePath) \<longrightarrow>
            \<not> existsSync fs (d' @ [''package.json'']))"
    unfolding findPackageJson_def by (rule findPackageJson_loop_None)
  show "findInternalPackageNames fs rootDirectory = Inr packageMap \<and>
    findPackageJson fs filePath = Some (rootDirectory @ rel) \<and>
    ''node_modules'' \<notin> set rel \<and>
    (\<forall>es. fs_lookup fs (rootDirectory @ rel @ [''package.json'']) \<noteq> Some (Dir es)) \<longrightarrow>
      rootDirectory @ rel \<in> fst ` set packageMap"
  proof (intro impI, elim conjE)
    assume scan: "findInternalPackageNames fs rootDirectory = Inr packageMap"
      and found: "findPackageJson fs filePath = Some (rootDirectory @ rel)"
      and nm: "''node_modules'' \<notin> set rel"
      and nodir: "\<forall>es. fs_lookup fs (rootDirectory @ rel @ [''package.json'']) \<noteq> Some (Dir es)"
    from found have "existsSync fs ((rootDirectory @ rel) @ [''package.json''])"
      unfolding findPackageJson_def findPackageJson_loop_Some by blast
    then obtain t where t: "fs_lookup fs (rootDirectory @ rel @ [''package.json'']) = Some t"
      by (auto simp: existsSync_def)
    with nodir obtain c where "fs_lookup fs (rootDirectory @ rel @ [''package.json'']) =
        Some (File c)"
      by (cases t) auto
    from scan_registers [OF scan this nm] show "rootDirectory @ rel \<in> fst ` set packageMap" .
  qed
qed

theorem findPackageJson_nearest_manifest_on_disk_witness:
  "findPackageJson example_fs [''proj'', ''core'', ''src'', ''a.js''] = Some [''proj'', ''core''] \<and>
   existsSync example_fs [''proj'', ''core'', ''package.json''] \<and>
   \<not> existsSync example_fs [''proj'', ''core'', ''src'', ''package.json''] \<and>
   \<not> existsSync example_fs [''tmp'', ''package.json''] \<and>
   [''proj'', ''core''] \<in> fst ` set example_registry"
proof -
  have 1: "findPackageJson example_fs [''proj'', ''core'', ''src'', ''a.js''] =
             Some [''proj'', ''core'']"
    by (simp add: example_fs_def findPackageJson_def dirname_def existsSync_def)
  have 2: "findPackageJson example_fs [''tmp'', ''tool.js''] = None"
    by (simp add: example_fs_def findPackageJson_def dirname_def existsSync_def)
  have p: "prefix [''proj'', ''core'', ''src''] (dirname [''proj'', ''core'', ''src'', ''a.js''])"
    "length [''proj'', ''core''] < length [''proj'', ''core'', ''src'']"
    "prefix [''tmp''] (dirname [''tmp'', ''tool.js''])"
    by (simp_all add: dirname_def)
  from findPackageJson_nearest_manifest_on_disk [of example_fs
      "[''proj'', ''core'', ''src'', ''a.js'']" "[''proj'', ''core'']"] 1
  have a: "existsSync example_fs ([''proj'', ''core''] @ [''package.json''])"
    and b: "\<forall>d'. prefix d' (dirname [''proj'', ''core'', ''src'', ''a.js'']) \<and>
                 length [''proj'', ''core''] < length d' \<longrightarrow>
                 \<not> existsSync example_fs (d' @ [''package.json''])"
    by blast+
  from b p(1,2) have c: "\<not> existsSync example_fs ([''proj'', ''core'', ''src''] @ [''package.json''])"
    by blast
  from findPackageJson_nearest_manifest_on_disk [of example_fs "[''tmp'', ''tool.js'']"] 2 p(3)
  have d: "\<not> existsSync example_fs ([''tmp''] @ [''package.json''])" by blast
  have f: "findPackageJson example_fs [''proj'', ''core'', ''src'', ''a.js''] =
             Some ([''proj''] @ [''core''])"
    using 1 by simp
  have g: "''node_modules'' \<notin> set [''core'']" by simp
  have h: "\<forall>es. fs_lookup example_fs ([''proj''] @ [''core''] @ [''package.json'']) \<noteq>
             Some (Dir es)"
    by (simp add: example_fs_def)
  from findPackageJson_nearest_manifest_on_disk [where fs = example_fs
      and rootDirectory = "[''proj'']" and packageMap = example_registry and rel = "[''core'']"
      and filePath = "[''proj'', ''core'', ''src'', ''a.js'']"] example_scan f g h
  have e: "[''proj''] @ [''core''] \<in> fst ` set example_registry" by blast
  from 1 a c d e show ?thesis by simp
qed

text \<open>
  C7 as stated fails: for a file of a vendored dependency the lookup returns the
  dependency's directory, which is no key of the registry, although the ancestor
  \<open>/proj\<close> is one.
\<close>

theorem findPackageJson_not_registry_key_counterexample:
  "findInternalPackageNames example_fs [''proj''] = Inr example_registry \<and>
   findPackageJson example_fs [''proj'', ''node_modules'', ''dep'', ''index.js''] =
     Some [''proj'', ''node_modules'', ''dep''] \<and>
   map_of example_registry [''proj'', ''node_modules'', ''dep''] = None \<and>
   map_of example_registry [''proj''] = Some (Some ''root'')"
  by (simp add: example_fs_def example_registry_def findInternalPackageNames_def
      findPackageJson_def dirname_def existsSync_def)

end
